theory Spec2Isabelle
  imports Complex_Main "HOL-Library.AList" "HOL-Library.Sublist" "HOL-Library.Char_ord"
    "HOL-Library.List_Lexorder"
begin

section \<open>Python values\<close>

text \<open>
  The result files are JSON documents; after \<^verbatim>\<open>json.load\<close> they are Python
  values built from \<^verbatim>\<open>None\<close>, booleans, numbers, strings, lists and dicts.
  A dict is an association list in insertion order (keys distinct).

  Numbers are exact rationals: the binary rounding of Python's floats, and the values
  \<^verbatim>\<open>NaN\<close> and \<^verbatim>\<open>Infinity\<close>, are not modelled. Text is a list of 8-bit
  characters: ASCII text is itself, and the Chinese literals of the source are their UTF-8
  bytes. Case mapping and the character classes of the regular expressions are those of
  ASCII; code points outside ASCII whose Unicode upper-case form is an ASCII letter are not
  modelled.
\<close>

datatype json =
    JNull
  | JBool bool
  | JNum rat
  | JStr string
  | JArr "json list"
  | JObj "(string \<times> json) list"

datatype error = AttributeError | TypeError | ValueError

text \<open>\<^verbatim>\<open>d.get(k, default)\<close>: only a dict has the method.\<close>

fun py_get :: "json \<Rightarrow> string \<Rightarrow> json \<Rightarrow> error + json" where
  "py_get (JObj kvs) k d = Inr (case map_of kvs k of Some v \<Rightarrow> v | None \<Rightarrow> d)"
| "py_get _ k d = Inl AttributeError"

text \<open>\<^verbatim>\<open>d[k] = v\<close> with a string key: a dict keeps the key's position or appends it;
  every other value raises.\<close>

fun py_setitem :: "json \<Rightarrow> string \<Rightarrow> json \<Rightarrow> error + json" where
  "py_setitem (JObj kvs) k v = Inr (JObj (AList.update k v kvs))"
| "py_setitem _ k v = Inl TypeError"

text \<open>\<^verbatim>\<open>x * ratio\<close> with a float \<^verbatim>\<open>ratio\<close>: numbers and booleans multiply,
  everything else raises \<^verbatim>\<open>TypeError\<close>.\<close>

fun py_mul_float :: "json \<Rightarrow> rat \<Rightarrow> error + rat" where
  "py_mul_float (JNum x) r = Inr (x * r)"
| "py_mul_float (JBool b) r = Inr ((if b then 1 else 0) * r)"
| "py_mul_float _ r = Inl TypeError"

text \<open>\<^verbatim>\<open>round(x, 2)\<close>: to two decimals, a tie going to the even neighbour.\<close>

definition round2 :: "rat \<Rightarrow> rat" where
  "round2 x =
     (let y = x * 100; f = \<lfloor>y\<rfloor>; d = y - of_int f
      in of_int (if d < 1 / 2 then f else if 1 / 2 < d then f + 1
                 else if even f then f else f + 1) / 100)"

section \<open>Objective scoring (\<^verbatim>\<open>obj/analysis/auto_scoring.py\<close>)\<close>

subsection \<open>\<^verbatim>\<open>AutoScorer._normalize_answer\<close>\<close>

definition upper_char :: "char \<Rightarrow> char" where
  "upper_char c =
     (case map_of (zip ''abcdefghijklmnopqrstuvwxyz'' ''ABCDEFGHIJKLMNOPQRSTUVWXYZ'') c of
        Some u \<Rightarrow> u | None \<Rightarrow> c)"

definition upper :: "string \<Rightarrow> string" where
  "upper s = map upper_char s"

definition is_AZ :: "char \<Rightarrow> bool" where
  "is_AZ c = (c \<in> set ''ABCDEFGHIJKLMNOPQRSTUVWXYZ'')"

text \<open>\<^verbatim>\<open>re.findall(r'[A-Z]', s)\<close>: the matches, each a one-character string.\<close>

definition findall_AZ :: "string \<Rightarrow> string list" where
  "findall_AZ s = map (\<lambda>c. [c]) (filter is_AZ s)"

text \<open>The letters one list item contributes; an item that is not a string is passed over.\<close>

fun item_letters :: "json \<Rightarrow> string list" where
  "item_letters (JStr s) = findall_AZ (upper s)"
| "item_letters _ = []"

fun normalize_answer :: "json \<Rightarrow> string list" where
  "normalize_answer (JStr s) = sort (remdups (findall_AZ (upper s)))"
| "normalize_answer (JArr items) = sort (remdups (concat (map item_letters items)))"
| "normalize_answer _ = []"

subsection \<open>\<^verbatim>\<open>AutoScorer._calculate_score\<close>\<close>

definition is_separate_format :: "string list \<Rightarrow> bool" where
  "is_separate_format standard_answer = list_all (\<lambda>opt. length opt = 1) standard_answer"

definition all_standard_options :: "string list \<Rightarrow> string set" where
  "all_standard_options standard_answer =
     (\<Union>opt \<in> set standard_answer. set (normalize_answer (JStr opt)))"

definition score_ratio :: "string list \<Rightarrow> string list \<Rightarrow> rat" where
  "score_ratio standard_answer model_answer =
     (let standard_set = set standard_answer; model_set = set model_answer
      in if is_separate_format standard_answer then
           (let correct_matches = card (standard_set \<inter> model_set);
                total_standard = card standard_set
            in if total_standard = 0 then (if card model_set = 0 then 1 else 0)
               else of_nat correct_matches / of_nat total_standard)
         else
           (let all_opts = all_standard_options standard_answer
            in if model_set = all_opts then 1
               else if model_set - all_opts \<noteq> {} then 0
               else (let correct_matches = card (all_opts \<inter> model_set);
                         total_standard = card all_opts
                     in if total_standard = 0 then (if card model_set = 0 then 1 else 0)
                        else of_nat correct_matches / of_nat total_standard)))"

definition calculate_score :: "string list \<Rightarrow> string list \<Rightarrow> json \<Rightarrow> error + rat" where
  "calculate_score standard_answer model_answer question_score =
     (case py_mul_float question_score (score_ratio standard_answer model_answer) of
        Inl e \<Rightarrow> Inl e
      | Inr x \<Rightarrow> Inr (round2 x))"

subsection \<open>\<^verbatim>\<open>AutoScorer._process_single_file\<close>\<close>

text \<open>The body of the per-record \<^verbatim>\<open>try\<close>: the record with its score written, and the
  score; \<open>Inl\<close> is the exception that the \<^verbatim>\<open>except\<close> of the record catches.\<close>

definition score_question :: "json \<Rightarrow> error + (json \<times> rat)" where
  "score_question question =
     (case py_get question ''standard_answer'' (JArr []) of Inl e \<Rightarrow> Inl e
      | Inr standard_answer \<Rightarrow>
     (case py_get question ''model_answer'' (JArr []) of Inl e \<Rightarrow> Inl e
      | Inr model_answer \<Rightarrow>
     (let std_normalized = normalize_answer standard_answer;
          model_normalized = normalize_answer model_answer
      in case py_get question ''score'' (JNum 3) of Inl e \<Rightarrow> Inl e
      | Inr question_score \<Rightarrow>
     (case calculate_score std_normalized model_normalized question_score of Inl e \<Rightarrow> Inl e
      | Inr score \<Rightarrow>
     (case py_setitem question ''model_score'' (JNum score) of Inl e \<Rightarrow> Inl e
      | Inr question' \<Rightarrow> Inr (question', score))))))"

text \<open>The state of the loop over the records: the records left behind so far, the two
  counters, and the positions printed by the \<^verbatim>\<open>except\<close> branch.\<close>

record scoring =
  done_questions :: "json list"
  processed_count :: nat
  total_score :: rat
  error_log :: "nat list"

definition scoring_init :: scoring where
  "scoring_init = \<lparr>done_questions = [], processed_count = 0, total_score = 0, error_log = []\<rparr>"

definition score_step :: "nat \<Rightarrow> json \<Rightarrow> scoring \<Rightarrow> scoring" where
  "score_step i question st =
     (case score_question question of
        Inl e \<Rightarrow> st\<lparr>done_questions := done_questions st @ [question],
                    error_log := error_log st @ [i]\<rparr>
      | Inr (question', score) \<Rightarrow>
          st\<lparr>done_questions := done_questions st @ [question'],
             processed_count := processed_count st + 1,
             total_score := total_score st + score\<rparr>)"

fun score_loop :: "nat \<Rightarrow> json list \<Rightarrow> scoring \<Rightarrow> scoring" where
  "score_loop i [] st = st"
| "score_loop i (question # rest) st = score_loop (Suc i) rest (score_step i question st)"

text \<open>What \<^verbatim>\<open>enumerate(questions)\<close> walks through: the items of a list, the keys of a
  dict, the characters of a string; \<^verbatim>\<open>len\<close> of anything else raises.\<close>

fun py_iter :: "json \<Rightarrow> error + json list" where
  "py_iter (JArr xs) = Inr xs"
| "py_iter (JObj kvs) = Inr (map (\<lambda>kv. JStr (fst kv)) kvs)"
| "py_iter (JStr s) = Inr (map (\<lambda>c. JStr [c]) s)"
| "py_iter _ = Inl TypeError"

text \<open>The records are changed in place, so the document written back holds the new
  records where the old list was.\<close>

fun put_questions :: "json \<Rightarrow> json \<Rightarrow> json list \<Rightarrow> json" where
  "put_questions (JObj kvs) (JArr old) new = JObj (AList.update ''questions'' (JArr new) kvs)"
| "put_questions data questions new = data"

record file_result =
  written :: "json option"
  result_count :: nat
  result_avg :: rat
  result_log :: "nat list"

definition no_result :: "nat list \<Rightarrow> file_result" where
  "no_result errs = \<lparr>written = None, result_count = 0, result_avg = 0, result_log = errs\<rparr>"

text \<open>The argument is what \<^verbatim>\<open>json.load\<close> gives (\<open>None\<close> when opening or parsing
  raises); \<open>written\<close> is the document dumped to the file, \<open>None\<close> when nothing is
  written.\<close>

definition process_single_file :: "json option \<Rightarrow> file_result" where
  "process_single_file file =
     (case file of None \<Rightarrow> no_result []
      | Some data \<Rightarrow>
     (case py_get data ''questions'' (JArr []) of Inl e \<Rightarrow> no_result []
      | Inr questions \<Rightarrow>
     (case py_iter questions of Inl e \<Rightarrow> no_result []
      | Inr qs \<Rightarrow>
     (let st = score_loop 0 qs scoring_init
      in if processed_count st > 0 then
           \<lparr>written = Some (put_questions data questions (done_questions st)),
            result_count = processed_count st,
            result_avg = total_score st / of_nat (processed_count st),
            result_log = error_log st\<rparr>
         else no_result (error_log st)))))"

text \<open>The content of the file after the pass.\<close>

definition file_after :: "json option \<Rightarrow> json option" where
  "file_after file = (case written (process_single_file file) of Some d \<Rightarrow> Some d | None \<Rightarrow> file)"

text \<open>The score that the pass writes for a record with the given answers and full score.\<close>

definition pipeline_score :: "json \<Rightarrow> json \<Rightarrow> json \<Rightarrow> error + rat" where
  "pipeline_score standard_answer model_answer question_score =
     map_sum id snd (score_question
       (JObj [(''standard_answer'', standard_answer), (''model_answer'', model_answer),
              (''score'', question_score)]))"

section \<open>More of Python\<close>

text \<open>\<^verbatim>\<open>bool(x)\<close>, as \<^verbatim>\<open>not x\<close> tests it.\<close>

fun py_truthy :: "json \<Rightarrow> bool" where
  "py_truthy JNull = False"
| "py_truthy (JBool b) = b"
| "py_truthy (JNum x) = (x \<noteq> 0)"
| "py_truthy (JStr s) = (s \<noteq> [])"
| "py_truthy (JArr xs) = (xs \<noteq> [])"
| "py_truthy (JObj kvs) = (kvs \<noteq> [])"

text \<open>\<^verbatim>\<open>k in x\<close> for a string \<open>k\<close>: a key of a dict, an item of a list, a substring
  of a string; anything else is not a container and raises.\<close>

fun py_contains :: "string \<Rightarrow> json \<Rightarrow> error + bool" where
  "py_contains k (JObj kvs) = Inr (k \<in> set (map fst kvs))"
| "py_contains k (JArr xs) = Inr (JStr k \<in> set xs)"
| "py_contains k (JStr s) = Inr (sublist k s)"
| "py_contains k _ = Inl TypeError"

text \<open>\<^verbatim>\<open>float(x)\<close>. The conversion of a string is Python's own and is a parameter
  (\<open>None\<close> for \<^verbatim>\<open>ValueError\<close>).\<close>

fun py_float :: "(string \<Rightarrow> rat option) \<Rightarrow> json \<Rightarrow> error + rat" where
  "py_float sf (JNum x) = Inr x"
| "py_float sf (JBool b) = Inr (if b then 1 else 0)"
| "py_float sf (JStr s) = (case sf s of Some x \<Rightarrow> Inr x | None \<Rightarrow> Inl ValueError)"
| "py_float sf _ = Inl TypeError"

subsection \<open>Text\<close>

definition is_space :: "char \<Rightarrow> bool" where
  "is_space c = (c \<in> set [CHR 0x20, CHR 0x09, CHR 0x0A, CHR 0x0B, CHR 0x0C, CHR 0x0D,
                            CHR 0x1C, CHR 0x1D, CHR 0x1E, CHR 0x1F])"

definition is_digit :: "char \<Rightarrow> bool" where
  "is_digit c = (c \<in> set ''0123456789'')"

text \<open>\<^verbatim>\<open>s.strip()\<close>\<close>

definition strip :: "string \<Rightarrow> string" where
  "strip s = rev (dropWhile is_space (rev (dropWhile is_space s)))"

text \<open>The text around the first occurrence of a separator.\<close>

fun split_once :: "string \<Rightarrow> string \<Rightarrow> (string \<times> string) option" where
  "split_once sep [] = (if sep = [] then Some ([], []) else None)"
| "split_once sep (c # cs) =
     (if prefix sep (c # cs) then Some ([], drop (length sep) (c # cs))
      else map_option (\<lambda>(a, b). (c # a, b)) (split_once sep cs))"

text \<open>\<^verbatim>\<open>s.split(sep)[0]\<close>\<close>

definition split_0 :: "string \<Rightarrow> string \<Rightarrow> string" where
  "split_0 sep s = (case split_once sep s of Some (a, b) \<Rightarrow> a | None \<Rightarrow> s)"

text \<open>\<^verbatim>\<open>s.split(sep)[1]\<close>, used where \<open>sep\<close> occurs in \<open>s\<close>.\<close>

definition split_1 :: "string \<Rightarrow> string \<Rightarrow> string" where
  "split_1 sep s = (case split_once sep s of Some (a, b) \<Rightarrow> split_0 sep b | None \<Rightarrow> [])"

section \<open>Teacher grading (\<^verbatim>\<open>sub/AIRun/teacher_grading.py\<close>)\<close>

subsection \<open>The surroundings\<close>

text \<open>
  What one request to the grading service comes to: an exception before the text of
  the reply is in hand (\<^verbatim>\<open>requests.post\<close> raising, a body that is not the expected
  JSON), or a status code with the text of the first choice.
\<close>

datatype outcome = Raised | Response nat string

text \<open>
  The parts of a run that are not in the source: \<^verbatim>\<open>json.loads\<close> (\<open>None\<close> for
  \<^verbatim>\<open>JSONDecodeError\<close>), \<^verbatim>\<open>float\<close> on a string, the service (its answer to the
  \<open>n\<close>-th request of the run, sent for a record; the prompt is a function of the record),
  the clock read by \<^verbatim>\<open>time.strftime\<close>, \<^verbatim>\<open>Path.with_suffix\<close>, and the two
  constructor arguments.
\<close>

record env =
  json_loads :: "string \<Rightarrow> json option"
  str_float :: "string \<Rightarrow> rat option"
  remote :: "nat \<Rightarrow> json \<Rightarrow> outcome"
  strftime :: "nat \<Rightarrow> string"
  with_suffix :: "string \<Rightarrow> string \<Rightarrow> string"
  max_retries :: nat
  backup :: bool

text \<open>The default of the constructor argument \<^verbatim>\<open>max_retries\<close>.\<close>

definition default_max_retries :: nat where
  "default_max_retries = 3"

text \<open>
  What a run changes: the requests sent (the record each was sent for), the waits of
  \<^verbatim>\<open>time.sleep\<close> in seconds, the files that exist with their documents, and the
  paths written, all in order of time.
\<close>

record world =
  sent :: "json list"
  sleeps :: "rat list"
  files :: "(string \<times> json) list"
  writes :: "string list"

definition sleep :: "rat \<Rightarrow> world \<Rightarrow> world" where
  "sleep seconds w = w\<lparr>sleeps := sleeps w @ [seconds]\<rparr>"

definition dump :: "string \<Rightarrow> json \<Rightarrow> world \<Rightarrow> world" where
  "dump path doc w = w\<lparr>files := AList.update path doc (files w), writes := writes w @ [path]\<rparr>"

record verdict =
  teacher_analysis :: json
  teacher_score :: rat

subsection \<open>\<^verbatim>\<open>call_teacher_api\<close>\<close>

text \<open>The payload taken out of a fenced block of the reply.\<close>

definition extract_payload :: "string \<Rightarrow> string" where
  "extract_payload content =
     (if sublist ''```json'' content then strip (split_0 ''```'' (split_1 ''```json'' content))
      else if sublist ''```'' content then strip (split_0 ''```'' (split_1 ''```'' content))
      else content)"

text \<open>
  The check of the parsed reply: \<open>Inr (Some v)\<close> when both fields are there, \<open>Inr None\<close>
  when one is missing, \<open>Inl\<close> when an exception leaves the inner \<^verbatim>\<open>try\<close>. A list or a
  string that holds both names passes the two \<^verbatim>\<open>in\<close> tests and raises at the
  subscript and again in the handler.
\<close>

definition check_fields :: "env \<Rightarrow> json \<Rightarrow> error + verdict option" where
  "check_fields E g =
     (case py_contains ''teacher_analysis'' g of Inl e \<Rightarrow> Inl e
      | Inr has_analysis \<Rightarrow>
          if \<not> has_analysis then Inr None
          else (case py_contains ''teacher_score'' g of Inl e \<Rightarrow> Inl e
                | Inr has_score \<Rightarrow>
                    if \<not> has_score then Inr None
                    else (case g of
                            JObj kvs \<Rightarrow>
                              Inr (Some \<lparr>teacher_analysis =
                                           (case map_of kvs ''teacher_analysis'' of
                                              Some a \<Rightarrow> a | None \<Rightarrow> JNull),
                                         teacher_score =
                                           (case map_of kvs ''teacher_score'' of
                                              Some s \<Rightarrow>
                                                (case py_float (str_float E) s of
                                                   Inr x \<Rightarrow> x | Inl e \<Rightarrow> 0)
                                            | None \<Rightarrow> 0)\<rparr>)
                          | _ \<Rightarrow> Inl TypeError)))"

text \<open>How the body of one attempt with status 200 ends: it returns, it falls through to
  the next attempt, or it raises into the outer \<^verbatim>\<open>except\<close>.\<close>

datatype handled = Return verdict | Continue | Except

definition teacher_handle :: "env \<Rightarrow> string \<Rightarrow> handled" where
  "teacher_handle E content =
     (let payload = extract_payload content
      in case json_loads E payload of
           None \<Rightarrow> Return \<lparr>teacher_analysis = JStr payload, teacher_score = 0\<rparr>
         | Some g \<Rightarrow>
             (case check_fields E g of
                Inl e \<Rightarrow> Except
              | Inr None \<Rightarrow> Continue
              | Inr (Some v) \<Rightarrow> Return v))"

text \<open>The loop \<^verbatim>\<open>for attempt in range(self.max_retries)\<close>, the same in both classes;
  \<open>h\<close> is the body for status 200.\<close>

fun api_attempts ::
  "(env \<Rightarrow> string \<Rightarrow> handled) \<Rightarrow> env \<Rightarrow> json \<Rightarrow> nat list \<Rightarrow> world \<Rightarrow> verdict option \<times> world"
where
  "api_attempts h E q [] w = (None, w)"
| "api_attempts h E q (attempt # rest) w =
     (let w1 = w\<lparr>sent := sent w @ [q]\<rparr>;
          after_except = (if attempt < max_retries E - 1 then sleep (2 ^ attempt) w1 else w1)
      in case remote E (length (sent w)) q of
           Raised \<Rightarrow> api_attempts h E q rest after_except
         | Response status content \<Rightarrow>
             if status = 200 then
               (case h E content of
                  Return v \<Rightarrow> (Some v, w1)
                | Continue \<Rightarrow> api_attempts h E q rest w1
                | Except \<Rightarrow> api_attempts h E q rest after_except)
             else api_attempts h E q rest (sleep (2 ^ attempt) w1))"

definition call_teacher_api :: "env \<Rightarrow> json \<Rightarrow> world \<Rightarrow> verdict option \<times> world" where
  "call_teacher_api E q w = api_attempts teacher_handle E q [0..<max_retries E] w"

subsection \<open>\<^verbatim>\<open>grade_single_question\<close>\<close>

definition failure_analysis :: string where
  "failure_analysis =
     [CHR 0xE8, CHR 0xAF, CHR 0x84, CHR 0xE5, CHR 0x88, CHR 0x86, CHR 0xE7, CHR 0xB3, CHR 0xBB,
      CHR 0xE7, CHR 0xBB, CHR 0x9F, CHR 0xE8, CHR 0xB0, CHR 0x83, CHR 0xE7, CHR 0x94, CHR 0xA8,
      CHR 0xE5, CHR 0xA4, CHR 0xB1, CHR 0xE8, CHR 0xB4, CHR 0xA5, CHR 0xEF, CHR 0xBC, CHR 0x8C,
      CHR 0xE6, CHR 0x97, CHR 0xA0, CHR 0xE6, CHR 0xB3, CHR 0x95, CHR 0xE7, CHR 0xBB, CHR 0x99,
      CHR 0xE5, CHR 0x87, CHR 0xBA, CHR 0xE8, CHR 0xAF, CHR 0x84, CHR 0xE5, CHR 0x88, CHR 0x86]"

text \<open>\<^verbatim>\<open>construct_grading_prompt\<close> reads the record with \<^verbatim>\<open>get\<close>, which only a dict
  has; the text of the prompt is not modelled.\<close>

fun construct_grading_prompt :: "json \<Rightarrow> error + unit" where
  "construct_grading_prompt (JObj kvs) = Inr ()"
| "construct_grading_prompt _ = Inl AttributeError"

text \<open>The three assignments to the record.\<close>

definition store_verdict :: "json \<Rightarrow> verdict \<Rightarrow> string \<Rightarrow> error + json" where
  "store_verdict q v stamp =
     (case py_setitem q ''teacher_analysis'' (teacher_analysis v) of Inl e \<Rightarrow> Inl e
      | Inr q1 \<Rightarrow>
     (case py_setitem q1 ''teacher_score'' (JNum (teacher_score v)) of Inl e \<Rightarrow> Inl e
      | Inr q2 \<Rightarrow> py_setitem q2 ''grading_timestamp'' (JStr stamp)))"

text \<open>\<^verbatim>\<open>'teacher_score' in q and 'teacher_analysis' in q\<close>\<close>

definition has_both :: "json \<Rightarrow> error + bool" where
  "has_both q =
     (case py_contains ''teacher_score'' q of Inl e \<Rightarrow> Inl e
      | Inr a \<Rightarrow> if a then py_contains ''teacher_analysis'' q else Inr False)"

definition grade_single_question :: "env \<Rightarrow> json \<Rightarrow> world \<Rightarrow> error + (json \<times> world)" where
  "grade_single_question E q w =
     (case has_both q of Inl e \<Rightarrow> Inl e
      | Inr skip \<Rightarrow>
          if skip then Inr (q, w)
          else (case construct_grading_prompt q of Inl e \<Rightarrow> Inl e
                | Inr prompt \<Rightarrow>
                    (let (grading_result, w') = call_teacher_api E q w;
                         v = (case grading_result of
                                Some v \<Rightarrow> v
                              | None \<Rightarrow> \<lparr>teacher_analysis = JStr failure_analysis,
                                          teacher_score = 0\<rparr>)
                     in case store_verdict q v (strftime E (length (sent w'))) of
                          Inl e \<Rightarrow> Inl e
                        | Inr q' \<Rightarrow> Inr (q', w'))))"

subsection \<open>\<^verbatim>\<open>process_json_file\<close>\<close>

text \<open>\<^verbatim>\<open>sum(1 for ex in examples if 'teacher_score' in ex)\<close>\<close>

fun count_graded :: "json list \<Rightarrow> error + nat" where
  "count_graded [] = Inr 0"
| "count_graded (ex # rest) =
     (case py_contains ''teacher_score'' ex of Inl e \<Rightarrow> Inl e
      | Inr g \<Rightarrow>
          (case count_graded rest of Inl e \<Rightarrow> Inl e
           | Inr n \<Rightarrow> Inr (if g then Suc n else n)))"

text \<open>The document with its list of records as it stands.\<close>

fun put_examples :: "json \<Rightarrow> json list \<Rightarrow> json" where
  "put_examples (JObj kvs) new = JObj (AList.update ''example'' (JArr new) kvs)"
| "put_examples data new = data"

text \<open>The state of the grading loop: the exception that ended it, if any; the list of
  records; the number graded; the world.\<close>

record grading =
  raised :: "error option"
  examples :: "json list"
  graded_count :: nat
  world_now :: world

fun grade_loop ::
  "env \<Rightarrow> string \<Rightarrow> json \<Rightarrow> nat \<Rightarrow> json list \<Rightarrow> grading \<Rightarrow> grading"
where
  "grade_loop E path data i [] st = st"
| "grade_loop E path data i (example # rest) st =
     (case py_contains ''teacher_score'' example of
        Inl e \<Rightarrow> st\<lparr>raised := Some e\<rparr>
      | Inr graded \<Rightarrow>
          if graded then grade_loop E path data (Suc i) rest st
          else (case grade_single_question E example (world_now st) of
                  Inl e \<Rightarrow> st\<lparr>raised := Some e\<rparr>
                | Inr (example', w1) \<Rightarrow>
                    (let exs = (examples st)[i := example'];
                         n = graded_count st + 1;
                         w2 = (if n mod 5 = 0 then dump path (put_examples data exs) w1 else w1);
                         w3 = sleep (1 / 2) w2
                     in grade_loop E path data (Suc i) rest
                          (st\<lparr>examples := exs, graded_count := n, world_now := w3\<rparr>))))"

definition backup_file :: "env \<Rightarrow> string \<Rightarrow> string \<Rightarrow> json \<Rightarrow> world \<Rightarrow> world" where
  "backup_file E path sfx data w =
     (if backup E then
        (let backup_path = with_suffix E path sfx
         in if backup_path \<in> set (map fst (files w)) then w
            else dump backup_path data w)
      else w)"

text \<open>The result is the value returned and the world left behind. A path that is not
  among the readable files makes \<^verbatim>\<open>open\<close> or \<^verbatim>\<open>json.load\<close> raise.\<close>

definition process_json_file :: "env \<Rightarrow> string \<Rightarrow> world \<Rightarrow> bool \<times> world" where
  "process_json_file E path w =
     (case map_of (files w) path of None \<Rightarrow> (False, w)
      | Some data \<Rightarrow>
     (case py_get data ''example'' (JArr []) of Inl e \<Rightarrow> (False, w)
      | Inr exs_value \<Rightarrow>
          if \<not> py_truthy exs_value then (False, w)
          else
     (case py_iter exs_value of Inl e \<Rightarrow> (False, w)
      | Inr exs \<Rightarrow>
     (case count_graded exs of Inl e \<Rightarrow> (False, w)
      | Inr already_graded \<Rightarrow>
          if length exs - already_graded = 0 then (True, w)
          else
            (let w1 = backup_file E path ''.json.backup'' data w;
                 st = grade_loop E path data 0 exs
                        \<lparr>raised = None, examples = exs, graded_count = 0, world_now = w1\<rparr>
             in case raised st of
                  Some e \<Rightarrow> (False, world_now st)
                | None \<Rightarrow>
                    (True, dump path (put_examples data (examples st)) (world_now st)))))))"

section \<open>Regrading (\<^verbatim>\<open>sub/AIRun/regrade_zero_scores.py\<close>)\<close>

subsection \<open>The repair of the payload\<close>

text \<open>\<^verbatim>\<open>re.sub(r'\\(?!["\\/bfnrtu])', r'\\\\', content)\<close>: a backslash that is not followed
  by one of the nine characters is doubled.\<close>

definition escape_chars :: string where
  "escape_chars = [CHR 0x22, CHR 0x5C, CHR ''/'', CHR ''b'', CHR ''f'', CHR ''n'', CHR ''r'',
                   CHR ''t'', CHR ''u'']"

fun fix_escapes :: "string \<Rightarrow> string" where
  "fix_escapes [] = []"
| "fix_escapes (c # cs) =
     (if c = CHR 0x5C \<and> (case cs of [] \<Rightarrow> True | d # ds \<Rightarrow> d \<notin> set escape_chars)
      then CHR 0x5C # CHR 0x5C # fix_escapes cs
      else c # fix_escapes cs)"

subsection \<open>\<^verbatim>\<open>_extract_from_raw_text\<close>\<close>

definition wide_colon :: string where
  "wide_colon = [CHR 0xEF, CHR 0xBC, CHR 0x9A]"

definition label_final_score :: string where
  "label_final_score =
     [CHR 0xE6, CHR 0x9C, CHR 0x80, CHR 0xE7, CHR 0xBB, CHR 0x88, CHR 0xE5, CHR 0xBE, CHR 0x97,
      CHR 0xE5, CHR 0x88, CHR 0x86]"

definition label_score :: string where
  "label_score = [CHR 0xE5, CHR 0xBE, CHR 0x97, CHR 0xE5, CHR 0x88, CHR 0x86]"

definition label_grade :: string where
  "label_grade = [CHR 0xE8, CHR 0xAF, CHR 0x84, CHR 0xE5, CHR 0x88, CHR 0x86]"

definition fen :: string where
  "fen = [CHR 0xE5, CHR 0x88, CHR 0x86]"

definition is_numch :: "char \<Rightarrow> bool" where
  "is_numch c = (is_digit c \<or> c = CHR ''.'')"

text \<open>One character of the class \<^verbatim>\<open>[:]\<close> with the full-width colon in it.\<close>

definition colon_rest :: "string \<Rightarrow> string option" where
  "colon_rest r =
     (if prefix '':'' r then Some (drop 1 r)
      else if prefix wide_colon r then Some (drop (length wide_colon) r)
      else None)"

text \<open>What follows a label in the first four patterns: an optional quote (first pattern
  only), blanks, a colon, blanks, and the group \<^verbatim>\<open>([0-9.]+)\<close>.\<close>

definition after_label :: "bool \<Rightarrow> string \<Rightarrow> string option" where
  "after_label quoted rest =
     (let r0 = (if quoted \<and> prefix [CHR 0x22] rest then drop 1 rest else rest)
      in case colon_rest (dropWhile is_space r0) of
           None \<Rightarrow> None
         | Some r2 \<Rightarrow>
             (let num = takeWhile is_numch (dropWhile is_space r2)
              in if num = [] then None else Some num))"

text \<open>\<^verbatim>\<open>re.search\<close> with one of the first four patterns: the group of the leftmost
  match.\<close>

fun search_labelled :: "bool \<Rightarrow> string \<Rightarrow> string \<Rightarrow> string option" where
  "search_labelled quoted label [] = None"
| "search_labelled quoted label (c # cs) =
     (case (if prefix label (c # cs) then after_label quoted (drop (length label) (c # cs))
            else None) of
        Some num \<Rightarrow> Some num
      | None \<Rightarrow> search_labelled quoted label cs)"

text \<open>The fifth pattern, \<^verbatim>\<open>(\d+\.?\d*)\s*\<close> before the character for "points", at the
  start of a text.\<close>

definition number_fen_at :: "string \<Rightarrow> string option" where
  "number_fen_at s =
     (let d1 = takeWhile is_digit s; r1 = dropWhile is_digit s
      in if d1 = [] then None
         else (let dot = (if prefix ''.'' r1 then ''.'' else []);
                   r2 = drop (length dot) r1;
                   d2 = takeWhile is_digit r2;
                   r3 = dropWhile is_space (dropWhile is_digit r2)
               in if prefix fen r3 then Some (d1 @ dot @ d2) else None))"

fun search_number_fen :: "string \<Rightarrow> string option" where
  "search_number_fen [] = None"
| "search_number_fen (c # cs) =
     (case number_fen_at (c # cs) of
        Some num \<Rightarrow> Some num
      | None \<Rightarrow> search_number_fen cs)"

definition score_patterns :: "(string \<Rightarrow> string option) list" where
  "score_patterns =
     [search_labelled True ''teacher_score'',
      search_labelled False label_final_score,
      search_labelled False label_score,
      search_labelled False label_grade,
      search_number_fen]"

text \<open>\<^verbatim>\<open>float\<close> on a text of digits and dots, which is all a group can be: at most one
  dot and at least one digit, or \<^verbatim>\<open>ValueError\<close>.\<close>

definition digits_value :: "string \<Rightarrow> nat" where
  "digits_value ds = foldl (\<lambda>a c. 10 * a + (of_char c - 48)) 0 ds"

definition float_of_decimal :: "string \<Rightarrow> rat option" where
  "float_of_decimal s =
     (let ip = takeWhile is_digit s; r = dropWhile is_digit s
      in if r = [] then (if ip = [] then None else Some (of_nat (digits_value ip)))
         else if prefix ''.'' r \<and> list_all is_digit (drop 1 r) \<and> (ip \<noteq> [] \<or> drop 1 r \<noteq> [])
         then Some (of_nat (digits_value ip)
                    + of_nat (digits_value (drop 1 r)) / 10 ^ length (drop 1 r))
         else None)"

text \<open>The loop over the patterns: the first pattern that matches with a group that
  \<^verbatim>\<open>float\<close> accepts gives the score; otherwise the score stays 0.\<close>

fun first_score :: "(string \<Rightarrow> string option) list \<Rightarrow> string \<Rightarrow> rat" where
  "first_score [] content = 0"
| "first_score (pattern # rest) content =
     (case pattern content of
        None \<Rightarrow> first_score rest content
      | Some num \<Rightarrow>
          (case float_of_decimal num of
             Some x \<Rightarrow> x
           | None \<Rightarrow> first_score rest content))"

text \<open>\<^verbatim>\<open>re.sub(r'```json|```', '', analysis)\<close>\<close>

function remove_fences :: "string \<Rightarrow> string" where
  "remove_fences [] = []"
| "remove_fences (c # cs) =
     (if prefix ''```json'' (c # cs) then remove_fences (drop 7 (c # cs))
      else if prefix ''```'' (c # cs) then remove_fences (drop 3 (c # cs))
      else c # remove_fences cs)"
  by pat_completeness auto
termination
  by (relation "measure length") auto

definition extract_from_raw_text :: "string \<Rightarrow> verdict" where
  "extract_from_raw_text content =
     \<lparr>teacher_analysis = JStr (strip (remove_fences (strip content))),
      teacher_score = first_score score_patterns content\<rparr>"

subsection \<open>\<^verbatim>\<open>ReGradingSystem.call_teacher_api\<close>\<close>

definition regrade_handle :: "env \<Rightarrow> string \<Rightarrow> handled" where
  "regrade_handle E content =
     (let payload = extract_payload content;
          grading_result =
            (case json_loads E payload of
               Some g \<Rightarrow> Some g
             | None \<Rightarrow> json_loads E (fix_escapes payload))
      in case grading_result of
           None \<Rightarrow> Return (extract_from_raw_text payload)
         | Some g \<Rightarrow>
             (case check_fields E g of
                Inl e \<Rightarrow> Except
              | Inr None \<Rightarrow> Return (extract_from_raw_text payload)
              | Inr (Some v) \<Rightarrow> Return v))"

definition regrade_call_teacher_api :: "env \<Rightarrow> json \<Rightarrow> world \<Rightarrow> verdict option \<times> world" where
  "regrade_call_teacher_api E q w = api_attempts regrade_handle E q [0..<max_retries E] w"

subsection \<open>\<^verbatim>\<open>regrade_question\<close>\<close>


subsection \<open>\<^verbatim>\<open>scan_and_collect_zero_scores\<close>\<close>





section \<open>Specification vocabulary\<close>








text \<open>What the pass does to one record: the record as it is left, whether a score was
  written, and the score.\<close>

definition kept :: "json \<Rightarrow> json" where
  "kept q = (case score_question q of Inl e \<Rightarrow> q | Inr (q', s) \<Rightarrow> q')"

definition scored :: "json \<Rightarrow> bool" where
  "scored q = (case score_question q of Inl e \<Rightarrow> False | Inr r \<Rightarrow> True)"

definition score_of :: "json \<Rightarrow> rat" where
  "score_of q = (case score_question q of Inl e \<Rightarrow> 0 | Inr (q', s) \<Rightarrow> s)"

fun failing_from :: "nat \<Rightarrow> json list \<Rightarrow> nat list" where
  "failing_from i [] = []"
| "failing_from i (q # qs) = (if scored q then [] else [i]) @ failing_from (Suc i) qs"

definition scored_file :: "(string \<times> json) list \<Rightarrow> json list \<Rightarrow> file_result" where
  "scored_file kvs qs =
     (if filter scored qs \<noteq> [] then
        \<lparr>written = Some (JObj (AList.update ''questions'' (JArr (map kept qs)) kvs)),
         result_count = length (filter scored qs),
         result_avg = sum_list (map score_of qs) / of_nat (length (filter scored qs)),
         result_log = failing_from 0 qs\<rparr>
      else no_result (failing_from 0 qs))"

subsection \<open>Vocabulary for the grading service\<close>








text \<open>The record marked as failed by the first grading.\<close>

definition failure_record :: "(string \<times> json) list \<Rightarrow> string \<Rightarrow> json" where
  "failure_record kvs stamp =
     JObj (AList.update ''grading_timestamp'' (JStr stamp)
            (AList.update ''teacher_score'' (JNum 0)
              (AList.update ''teacher_analysis'' (JStr failure_analysis) kvs)))"

text \<open>A service that answers 503 and times out in turn; no reply is ever parsed.\<close>

definition failing_env :: env where
  "failing_env =
     \<lparr>json_loads = (\<lambda>s. None), str_float = float_of_decimal,
      remote = (\<lambda>n q. if even n then Response 503 [] else Raised),
      strftime = (\<lambda>n. ''2025-01-01 00:00:00''),
      with_suffix = (\<lambda>p s. p @ ''.backup''), max_retries = default_max_retries,
      backup = False\<rparr>"

definition empty_world :: world where
  "empty_world = \<lparr>sent = [], sleeps = [], files = [], writes = []\<rparr>"

text \<open>A record that carries a teacher score; one that carries the rationale as well.\<close>

fun has_teacher_score :: "json \<Rightarrow> bool" where
  "has_teacher_score (JObj kvs) = (''teacher_score'' \<in> set (map fst kvs))"
| "has_teacher_score _ = False"

fun graded :: "json \<Rightarrow> bool" where
  "graded (JObj kvs) =
     (''teacher_score'' \<in> set (map fst kvs) \<and> ''teacher_analysis'' \<in> set (map fst kvs))"
| "graded _ = False"

text \<open>A list of records in which the records of \<open>exs\<close> that carry a teacher score stand
  unchanged at their positions.\<close>

definition keeps :: "json list \<Rightarrow> json list \<Rightarrow> bool" where
  "keeps exs exs' =
     (length exs' = length exs
      \<and> (\<forall>j < length exs. has_teacher_score (exs ! j) \<longrightarrow> exs' ! j = exs ! j))"

text \<open>What the grading loop maintains, from a world that had \<open>n\<close> requests sent: the list
  in memory and the document in the file keep the scored records, and every request
  since was sent for a record without a score.\<close>

definition grading_inv ::
  "json list \<Rightarrow> string \<Rightarrow> (string \<times> json) list \<Rightarrow> nat \<Rightarrow> json list \<Rightarrow> world \<Rightarrow> bool" where
  "grading_inv exs path kvs n now w =
     (keeps exs now
      \<and> (\<exists>exs'. map_of (files w) path = Some (JObj (AList.update ''example'' (JArr exs') kvs))
                \<and> keeps exs exs')
      \<and> (\<forall>q \<in> set (drop n (sent w)). \<not> has_teacher_score q))"

text \<open>Sample records and documents.\<close>

definition scored_only :: json where
  "scored_only = JObj [(''question'', JStr ''q1''), (''teacher_score'', JNum 2)]"

definition fully_graded :: json where
  "fully_graded = JObj [(''question'', JStr ''q0''), (''teacher_analysis'', JStr ''good''),
                        (''teacher_score'', JNum 0)]"

definition ungraded :: json where
  "ungraded = JObj [(''question'', JStr ''q2'')]"

definition world_with :: "json list \<Rightarrow> world" where
  "world_with exs =
     \<lparr>sent = [], sleeps = [],
      files = [(''s/a.json'', JObj [(''model'', JStr ''m''), (''example'', JArr exs)])],
      writes = []\<rparr>"






text \<open>A service that always answers with a line of text that is not JSON; the parser
  knows the empty object and rejects the rest.\<close>

definition replying_env :: env where
  "replying_env =
     \<lparr>json_loads = (\<lambda>s. if s = ''{}'' then Some (JObj []) else None),
      str_float = float_of_decimal,
      remote = (\<lambda>n q. Response 200 ''teacher_score: 5''),
      strftime = (\<lambda>n. ''2025-01-01 00:00:00''),
      with_suffix = (\<lambda>p s. p @ ''.backup''), max_retries = default_max_retries,
      backup = False\<rparr>"


section \<open>Properties of the objective scoring\<close>

subsection \<open>Normalisation\<close>












subsection \<open>The score written by the pass\<close>







text \<open>
  Claim C1. \<^verbatim>\<open>_calculate_score\<close> called with the raw combined standard answer
  \<^verbatim>\<open>["BC"]\<close> gives 0 to the candidate \<^verbatim>\<open>["B","C","D"]\<close>, as its docstring says;
  the pass normalises the standard answer first, the combined branch is never taken,
  and the same record is scored 10 out of 10. The partial answer is scored 3 out of 9 on
  both paths.
\<close>

theorem combined_policy_lost_in_pipeline:
  "calculate_score [''BC''] [''B'', ''C'', ''D''] (JNum 10) = Inr 0
   \<and> pipeline_score (JArr [JStr ''BC'']) (JArr [JStr ''B'', JStr ''C'', JStr ''D'']) (JNum 10)
       = Inr 10
   \<and> calculate_score [''BCD''] [''B''] (JNum 9) = Inr 3
   \<and> pipeline_score (JArr [JStr ''BCD'']) (JArr [JStr ''B'']) (JNum 9) = Inr 3"
  by code_simp




subsection \<open>The pass over a file\<close>

lemma score_step_eq:
  "score_step i q st =
     \<lparr>done_questions = done_questions st @ [kept q],
      processed_count = processed_count st + (if scored q then 1 else 0),
      total_score = total_score st + score_of q,
      error_log = error_log st @ (if scored q then [] else [i])\<rparr>"
  by (cases "score_question q")
    (auto simp: score_step_def kept_def scored_def score_of_def)

lemma score_loop_eq:
  "score_loop i qs st =
     \<lparr>done_questions = done_questions st @ map kept qs,
      processed_count = processed_count st + length (filter scored qs),
      total_score = total_score st + sum_list (map score_of qs),
      error_log = error_log st @ failing_from i qs\<rparr>"
proof (induction qs arbitrary: i st)
  case Nil
  show ?case by simp
next
  case (Cons q qs)
  show ?case by (simp add: Cons.IH score_step_eq)
qed

lemma failing_from_append:
  "failing_from i (xs @ ys) = failing_from i xs @ failing_from (i + length xs) ys"
  by (induction xs arbitrary: i) simp_all

lemma score_question_again:
  assumes "score_question q = Inr (q', s)"
  shows "score_question q' = Inr (q', s)"
proof (cases q)
  case (JObj kvs)
  have upd: "map_of (AList.update ''model_score'' v kvs) k = map_of kvs k"
    if "k \<noteq> ''model_score''" for k v
    using that by (simp add: update_conv')
  from assms JObj obtain qs x where
    qs: "py_mul_float (case map_of kvs ''score'' of Some v \<Rightarrow> v | None \<Rightarrow> JNum 3)
           (score_ratio
             (normalize_answer (case map_of kvs ''standard_answer'' of Some v \<Rightarrow> v | None \<Rightarrow> JArr []))
             (normalize_answer (case map_of kvs ''model_answer'' of Some v \<Rightarrow> v | None \<Rightarrow> JArr [])))
         = Inr x"
    and s: "s = round2 x" and q': "q' = JObj (AList.update ''model_score'' (JNum s) kvs)"
    by (auto simp: score_question_def calculate_score_def split: sum.splits)
  show ?thesis
    unfolding q' score_question_def calculate_score_def
    by (simp add: upd qs s [symmetric] update_last)
qed (use assms in \<open>simp_all add: score_question_def\<close>)

lemma kept_props:
  "kept (kept q) = kept q" "scored (kept q) = scored q" "score_of (kept q) = score_of q"
proof -
  have "kept (kept q) = kept q \<and> scored (kept q) = scored q \<and> score_of (kept q) = score_of q"
  proof (cases "score_question q")
    case (Inl e)
    then show ?thesis by (simp add: kept_def)
  next
    case (Inr r)
    obtain q' s where r: "r = (q', s)" by (cases r)
    have "score_question q' = Inr (q', s)"
      using Inr r score_question_again by simp
    then show ?thesis using Inr r by (simp add: kept_def scored_def score_of_def)
  qed
  then show "kept (kept q) = kept q" "scored (kept q) = scored q"
    "score_of (kept q) = score_of q" by simp_all
qed

lemma kept_unscored: "\<not> scored q \<Longrightarrow> kept q = q"
  by (cases "score_question q") (simp_all add: kept_def scored_def)

lemma loop_again:
  "map kept (map kept qs) = map kept qs"
  "length (filter scored (map kept qs)) = length (filter scored qs)"
  "sum_list (map score_of (map kept qs)) = sum_list (map score_of qs)"
  "failing_from i (map kept qs) = failing_from i qs"
proof -
  show "map kept (map kept qs) = map kept qs" by (simp add: kept_props)
  show "length (filter scored (map kept qs)) = length (filter scored qs)"
    by (induction qs) (simp_all add: kept_props)
  show "sum_list (map score_of (map kept qs)) = sum_list (map score_of qs)"
    by (simp add: comp_def kept_props)
  show "failing_from i (map kept qs) = failing_from i qs"
    by (induction qs arbitrary: i) (simp_all add: kept_props)
qed

lemma process_list_file:
  assumes "map_of kvs ''questions'' = Some (JArr qs)"
  shows "process_single_file (Some (JObj kvs)) = scored_file kvs qs"
  using assms
  by (simp add: process_single_file_def score_loop_eq scoring_init_def scored_file_def)

lemma unscored_text: "\<not> scored (JStr s)"
  by (simp add: scored_def score_question_def)

lemma filter_scored_texts: "filter scored (map (\<lambda>x. JStr (f x)) xs) = []"
  by (induction xs) (simp_all add: unscored_text)

lemma written_shape:
  assumes "written (process_single_file file) = Some d"
  shows "\<exists>kvs qs. file = Some (JObj kvs) \<and> map_of kvs ''questions'' = Some (JArr qs)"
proof -
  from assms obtain data where f: "file = Some data"
    by (cases "file") (simp_all add: process_single_file_def no_result_def)
  from assms f obtain kvs where data: "data = JObj kvs"
    by (cases data) (simp_all add: process_single_file_def no_result_def)
  define questions where "questions = (case map_of kvs ''questions'' of Some v \<Rightarrow> v | None \<Rightarrow> JArr [])"
  have "\<exists>qs. questions = JArr qs \<and> filter scored qs \<noteq> []"
    using assms unfolding f data questions_def [symmetric]
    by (cases questions)
      (simp_all add: process_single_file_def no_result_def score_loop_eq scoring_init_def Let_def
        questions_def [symmetric] filter_scored_texts split: if_splits)
  then obtain qs where "questions = JArr qs" "filter scored qs \<noteq> []" by blast
  then have "map_of kvs ''questions'' = Some (JArr qs)"
    unfolding questions_def by (cases "map_of kvs ''questions''") auto
  with f data show ?thesis by blast
qed

lemma second_pass_same:
  "process_single_file (file_after f) = process_single_file f
   \<and> file_after (file_after f) = file_after f"
proof (cases "written (process_single_file f)")
  case None
  then show ?thesis by (simp add: file_after_def)
next
  case (Some d)
  then obtain kvs qs where f: "f = Some (JObj kvs)"
    and qs: "map_of kvs ''questions'' = Some (JArr qs)"
    using written_shape by blast
  let ?kvs' = "AList.update ''questions'' (JArr (map kept qs)) kvs"
  have first: "process_single_file f = scored_file kvs qs"
    unfolding f using qs by (rule process_list_file)
  have nonempty: "filter scored qs \<noteq> []"
    using Some first by (auto simp: scored_file_def no_result_def split: if_splits)
  have after: "file_after f = Some (JObj ?kvs')"
    using first nonempty by (simp add: file_after_def scored_file_def)
  have "map_of ?kvs' ''questions'' = Some (JArr (map kept qs))"
    by (simp add: update_conv')
  then have second: "process_single_file (Some (JObj ?kvs')) = scored_file ?kvs' (map kept qs)"
    by (rule process_list_file)
  have same: "scored_file ?kvs' (map kept qs) = scored_file kvs qs"
  proof -
    have a: "filter scored (map kept qs) \<noteq> []"
      using nonempty loop_again(2) [of qs] by (metis length_0_conv)
    show ?thesis
      unfolding scored_file_def loop_again update_last using a nonempty by simp
  qed
  show ?thesis
    using first second same after by (simp add: file_after_def scored_file_def nonempty)
qed

lemma unscored_parts:
  assumes "\<not> scored q"
  shows "filter scored (before @ q # after) = filter scored (before @ after)"
    and "sum_list (map score_of (before @ q # after)) = sum_list (map score_of (before @ after))"
    and "length before \<in> set (failing_from 0 (before @ q # after))"
    and "map kept (before @ q # after) = map kept before @ q # map kept after"
  using assms
  by (simp_all add: failing_from_append kept_unscored)
    (simp add: score_of_def scored_def split: sum.splits)

text \<open>
  Claim C8. When scoring the record at some position of a file raises, the position is
  logged and the record stays in the file as it was, with no score written; the records
  before and after it are scored as usual, and the count and the mean returned are
  those of the file without that record.
\<close>

theorem record_exception_isolated:
  assumes "score_question q = Inl e"
    and "map_of kvs ''questions'' = Some (JArr (before @ q # after))"
  shows "let r = process_single_file (Some (JObj kvs));
             r' = process_single_file
                    (Some (JObj (AList.update ''questions'' (JArr (before @ after)) kvs)))
         in length before \<in> set (result_log r)
          \<and> result_count r = result_count r' \<and> result_avg r = result_avg r'
          \<and> result_count r = length (filter scored (before @ after))
          \<and> written r =
              (if 0 < result_count r
               then Some (JObj (AList.update ''questions''
                                  (JArr (map kept before @ q # map kept after)) kvs))
               else None)"
proof -
  have q: "\<not> scored q" using assms(1) by (simp add: scored_def)
  let ?kvs' = "AList.update ''questions'' (JArr (before @ after)) kvs"
  have r: "process_single_file (Some (JObj kvs)) = scored_file kvs (before @ q # after)"
    using assms(2) by (rule process_list_file)
  have "map_of ?kvs' ''questions'' = Some (JArr (before @ after))"
    by (simp add: update_conv')
  then have r': "process_single_file (Some (JObj ?kvs')) = scored_file ?kvs' (before @ after)"
    by (rule process_list_file)
  show ?thesis
    unfolding Let_def r r' scored_file_def unscored_parts(1,2,4) [OF q]
    using unscored_parts(3) [OF q] by (simp add: no_result_def)
qed

theorem record_exception_isolated_witness:
  "score_question (JObj [(''score'', JStr ''x'')]) = Inl TypeError
   \<and> result_log (process_single_file (Some (JObj [(''questions'',
        JArr [JObj [(''standard_answer'', JStr ''A''), (''model_answer'', JStr ''A'')],
              JObj [(''score'', JStr ''x'')],
              JObj [(''standard_answer'', JStr ''AB''), (''model_answer'', JStr ''B'')]])]))) = [1]
   \<and> result_count (process_single_file (Some (JObj [(''questions'',
        JArr [JObj [(''standard_answer'', JStr ''A''), (''model_answer'', JStr ''A'')],
              JObj [(''score'', JStr ''x'')],
              JObj [(''standard_answer'', JStr ''AB''), (''model_answer'', JStr ''B'')]])])))
      = result_count (process_single_file (Some (JObj [(''questions'',
        JArr [JObj [(''standard_answer'', JStr ''A''), (''model_answer'', JStr ''A'')],
              JObj [(''standard_answer'', JStr ''AB''), (''model_answer'', JStr ''B'')]])])))"
proof -
  let ?a = "JObj [(''standard_answer'', JStr ''A''), (''model_answer'', JStr ''A'')]"
  let ?q = "JObj [(''score'', JStr ''x'')]"
  let ?b = "JObj [(''standard_answer'', JStr ''AB''), (''model_answer'', JStr ''B'')]"
  have h1: "score_question ?q = Inl TypeError" by code_simp
  have h2: "map_of [(''questions'', JArr ([?a] @ ?q # [?b]))] ''questions''
              = Some (JArr ([?a] @ ?q # [?b]))" by simp
  have lg: "result_log (process_single_file (Some (JObj [(''questions'', JArr [?a, ?q, ?b])])))
              = [1]" by code_simp
  show ?thesis
    using h1 lg record_exception_isolated [OF h1 h2] by (simp add: Let_def)
qed

lemma score_question_fields:
  assumes "py_get q ''standard_answer'' (JArr []) = py_get q' ''standard_answer'' (JArr [])"
    and "py_get q ''model_answer'' (JArr []) = py_get q' ''model_answer'' (JArr [])"
    and "py_get q ''score'' (JNum 3) = py_get q' ''score'' (JNum 3)"
  shows "map_sum id snd (score_question q) = map_sum id snd (score_question q')"
proof (cases q)
  case q: (JObj kvs)
  show ?thesis
  proof (cases q')
    case (JObj kvs')
    with q assms show ?thesis
      by (simp add: score_question_def split: sum.splits)
  qed (use q assms in simp_all)
next
qed (cases q'; use assms in \<open>simp add: score_question_def\<close>)+

text \<open>
  Claim C9. The objective-scoring pass is idempotent: a second run over the file left by
  the first returns the same count, mean and log and writes the same document. For a
  record, the outcome is a function of the standard answer, the candidate answer and the
  full score only, and scoring the record left by the pass gives the same score and the
  same record again.
\<close>

theorem scoring_pass_idempotent:
  "process_single_file (file_after f) = process_single_file f
   \<and> file_after (file_after f) = file_after f
   \<and> (py_get q ''standard_answer'' (JArr []) = py_get q' ''standard_answer'' (JArr [])
        \<and> py_get q ''model_answer'' (JArr []) = py_get q' ''model_answer'' (JArr [])
        \<and> py_get q ''score'' (JNum 3) = py_get q' ''score'' (JNum 3)
      \<longrightarrow> map_sum id snd (score_question q) = map_sum id snd (score_question q'))
   \<and> score_question (kept q) = map_sum id (\<lambda>r. (kept q, snd r)) (score_question q)"
proof -
  have "score_question (kept q) = map_sum id (\<lambda>r. (kept q, snd r)) (score_question q)"
  proof (cases "score_question q")
    case (Inl e)
    then show ?thesis by (simp add: kept_def)
  next
    case (Inr r)
    obtain q1 s where r: "r = (q1, s)" by (cases r)
    then show ?thesis using Inr score_question_again [of q q1 s] by (simp add: kept_def)
  qed
  then show ?thesis
    using second_pass_same [of f] score_question_fields [of q q'] by blast
qed

theorem scoring_pass_idempotent_witness:
  "file_after (Some (JObj [(''questions'',
      JArr [JObj [(''standard_answer'', JArr [JStr ''A'', JStr ''C'']),
                  (''model_answer'', JStr ''a''), (''score'', JNum 10)], JNull])]))
    = Some (JObj [(''questions'',
      JArr [JObj [(''standard_answer'', JArr [JStr ''A'', JStr ''C'']),
                  (''model_answer'', JStr ''a''), (''score'', JNum 10),
                  (''model_score'', JNum 5)], JNull])])
   \<and> file_after (file_after (Some (JObj [(''questions'',
      JArr [JObj [(''standard_answer'', JArr [JStr ''A'', JStr ''C'']),
                  (''model_answer'', JStr ''a''), (''score'', JNum 10)], JNull])])))
    = file_after (Some (JObj [(''questions'',
      JArr [JObj [(''standard_answer'', JArr [JStr ''A'', JStr ''C'']),
                  (''model_answer'', JStr ''a''), (''score'', JNum 10)], JNull])]))"
proof -
  let ?f = "Some (JObj [(''questions'',
      JArr [JObj [(''standard_answer'', JArr [JStr ''A'', JStr ''C'']),
                  (''model_answer'', JStr ''a''), (''score'', JNum 10)], JNull])])"
  have "file_after ?f = Some (JObj [(''questions'',
      JArr [JObj [(''standard_answer'', JArr [JStr ''A'', JStr ''C'']),
                  (''model_answer'', JStr ''a''), (''score'', JNum 10),
                  (''model_score'', JNum 5)], JNull])])"
    by code_simp
  then show ?thesis
    using scoring_pass_idempotent [of ?f] by simp
qed

section \<open>Properties of the teacher grading and the regrading\<close>

subsection \<open>The retry loop\<close>

lemma api_attempts_step:
  "(\<exists>v. api_attempts h E q (a # atts) w = (Some v, w\<lparr>sent := sent w @ [q]\<rparr>))
   \<or> (\<exists>w2. api_attempts h E q (a # atts) w = api_attempts h E q atts w2
          \<and> sent w2 = sent w @ [q] \<and> files w2 = files w \<and> writes w2 = writes w)"
proof -
  define w1 where "w1 = w\<lparr>sent := sent w @ [q]\<rparr>"
  define ws where "ws = sleep (2 ^ a) w1"
  define we where "we = (if a < max_retries E - 1 then ws else w1)"
  have fr: "sent w2 = sent w @ [q] \<and> files w2 = files w \<and> writes w2 = writes w"
    if "w2 = w1 \<or> w2 = ws \<or> w2 = we" for w2
    using that by (auto simp: w1_def ws_def we_def sleep_def)
  have "(\<exists>v. api_attempts h E q (a # atts) w = (Some v, w1))
      \<or> api_attempts h E q (a # atts) w = api_attempts h E q atts w1
      \<or> api_attempts h E q (a # atts) w = api_attempts h E q atts ws
      \<or> api_attempts h E q (a # atts) w = api_attempts h E q atts we"
  proof (cases "remote E (length (sent w)) q")
    case Raised
    then show ?thesis by (simp add: Let_def w1_def ws_def we_def)
  next
    case (Response status content)
    show ?thesis
    proof (cases "status = 200")
      case True
      with Response show ?thesis
        by (cases "h E content") (simp_all add: Let_def w1_def ws_def we_def)
    next
      case False
      with Response show ?thesis by (simp add: Let_def w1_def ws_def we_def)
    qed
  qed
  then show ?thesis
    using fr [of w1] fr [of ws] fr [of we] unfolding w1_def [symmetric] by blast
qed

lemma api_attempts_cases:
  obtains (ret) v where "api_attempts h E q (a # atts) w = (Some v, w\<lparr>sent := sent w @ [q]\<rparr>)"
  | (go) w2 where "api_attempts h E q (a # atts) w = api_attempts h E q atts w2"
      "sent w2 = sent w @ [q]" "files w2 = files w" "writes w2 = writes w"
  using api_attempts_step [of h E q a atts w] by blast

lemma api_attempts_files: "files (snd (api_attempts h E q atts w)) = files w"
proof (induction atts arbitrary: w)
  case Nil
  show ?case by simp
next
  case (Cons a atts)
  show ?case
  proof (cases rule: api_attempts_cases [of h E q a atts w])
    case (ret v)
    then show ?thesis by simp
  next
    case (go w2)
    then show ?thesis using Cons.IH [of w2] by simp
  qed
qed

lemma api_attempts_writes: "writes (snd (api_attempts h E q atts w)) = writes w"
proof (induction atts arbitrary: w)
  case Nil
  show ?case by simp
next
  case (Cons a atts)
  show ?case
  proof (cases rule: api_attempts_cases [of h E q a atts w])
    case (ret v)
    then show ?thesis by simp
  next
    case (go w2)
    then show ?thesis using Cons.IH [of w2] by simp
  qed
qed

lemma api_attempts_sent:
  "\<exists>k \<le> length atts. sent (snd (api_attempts h E q atts w)) = sent w @ replicate k q"
proof (induction atts arbitrary: w)
  case Nil
  show ?case by simp
next
  case (Cons a atts)
  show ?case
  proof (cases rule: api_attempts_cases [of h E q a atts w])
    case (ret v)
    show ?thesis unfolding ret by (rule exI [of _ 1]) simp
  next
    case (go w2)
    from Cons.IH [of w2] obtain k where k: "k \<le> length atts"
      "sent (snd (api_attempts h E q atts w2)) = sent w2 @ replicate k q" by blast
    have "Suc k \<le> length (a # atts)
      \<and> sent (snd (api_attempts h E q atts w2)) = sent w @ replicate (Suc k) q"
      using k go(2) by simp
    then show ?thesis unfolding go(1) by blast
  qed
qed












subsection \<open>The grading loop\<close>

lemma count_graded_all:
  "list_all graded exs \<Longrightarrow> count_graded exs = Inr (length exs)"
proof (induction exs)
  case Nil
  show ?case by simp
next
  case (Cons ex exs)
  then obtain kvs where "ex = JObj kvs" "''teacher_score'' \<in> set (map fst kvs)"
    by (cases ex) auto
  with Cons show ?case by simp
qed

text \<open>
  Claim C2. For a result file in which every record carries both a teacher score and a
  teacher rationale, a teacher-grading run over the file leaves the world as it was:
  no request is sent, nothing is written (not even the backup), and the content of the
  file is unchanged.
\<close>

theorem graded_file_untouched:
  assumes "map_of (files w) path = Some (JObj kvs)"
    and "map_of kvs ''example'' = Some (JArr exs)"
    and "list_all graded exs"
  shows "process_json_file E path w = (exs \<noteq> [], w)
         \<and> sent (snd (process_json_file E path w)) = sent w
         \<and> writes (snd (process_json_file E path w)) = writes w
         \<and> files (snd (process_json_file E path w)) = files w"
proof -
  have "process_json_file E path w = (exs \<noteq> [], w)"
    using assms(1,2) count_graded_all [OF assms(3)]
    by (simp add: process_json_file_def)
  then show ?thesis by simp
qed

theorem graded_file_untouched_witness:
  "list_all graded [fully_graded, fully_graded]
   \<and> process_json_file failing_env ''s/a.json'' (world_with [fully_graded, fully_graded])
       = (True, world_with [fully_graded, fully_graded])"
proof -
  have a: "map_of (files (world_with [fully_graded, fully_graded])) ''s/a.json''
      = Some (JObj [(''model'', JStr ''m''), (''example'', JArr [fully_graded, fully_graded])])"
    by (simp add: world_with_def)
  have b: "map_of [(''model'', JStr ''m''), (''example'', JArr [fully_graded, fully_graded])]
      ''example'' = Some (JArr [fully_graded, fully_graded])"
    by simp
  have c: "list_all graded [fully_graded, fully_graded]"
    by (simp add: fully_graded_def)
  show ?thesis
    using c graded_file_untouched [OF a b c, of failing_env] by simp
qed

lemma grade_single_question_frame:
  assumes "grade_single_question E q w = Inr (q', w')"
  shows "files w' = files w" and "writes w' = writes w"
    and "\<exists>k. sent w' = sent w @ replicate k q"
proof -
  have "files w' = files w \<and> writes w' = writes w \<and> (\<exists>k. sent w' = sent w @ replicate k q)"
  proof (cases "has_both q = Inr True")
    case True
    with assms have "w' = w" by (simp add: grade_single_question_def)
    then show ?thesis by simp
  next
    case False
    obtain r w1 where call: "call_teacher_api E q w = (r, w1)"
      by (cases "call_teacher_api E q w")
    have "w' = w1"
      using assms False call
      by (auto simp: grade_single_question_def split: sum.splits if_splits)
    moreover have "w1 = snd (api_attempts teacher_handle E q [0..<max_retries E] w)"
      using call by (simp add: call_teacher_api_def)
    ultimately show ?thesis
      using api_attempts_files [of teacher_handle E q "[0..<max_retries E]" w]
        api_attempts_writes [of teacher_handle E q "[0..<max_retries E]" w]
        api_attempts_sent [of "[0..<max_retries E]" teacher_handle E q w]
      by auto
  qed
  then show "files w' = files w" and "writes w' = writes w"
    and "\<exists>k. sent w' = sent w @ replicate k q" by simp_all
qed

lemma no_score: "py_contains ''teacher_score'' ex = Inr False \<Longrightarrow> \<not> has_teacher_score ex"
  by (cases ex) simp_all

lemma grading_inv_step:
  assumes inv: "grading_inv exs path kvs n (examples st) (world_now st)"
    and exs: "exs = pre @ example # rest"
    and lacks: "\<not> has_teacher_score example"
    and graded: "grade_single_question E example (world_now st) = Inr (example', w1)"
    and w2: "w2 = w1 \<or> w2 = dump path (put_examples (JObj kvs) ((examples st)[length pre := example'])) w1"
  shows "grading_inv exs path kvs n ((examples st)[length pre := example']) (sleep s w2)"
proof -
  let ?now = "(examples st)[length pre := example']"
  have at: "exs ! length pre = example" using exs by simp
  have keeps_now: "keeps exs ?now"
    unfolding keeps_def
  proof (intro conjI allI impI)
    show "length ?now = length exs" using inv by (simp add: grading_inv_def keeps_def)
  next
    fix j assume j: "j < length exs" "has_teacher_score (exs ! j)"
    then have "j \<noteq> length pre" using at lacks by auto
    then show "?now ! j = exs ! j"
      using inv j by (simp add: grading_inv_def keeps_def)
  qed
  from grade_single_question_frame [OF graded] obtain k where
    fr: "files w1 = files (world_now st)" "sent w1 = sent (world_now st) @ replicate k example"
    by blast
  have doc: "\<exists>exs'. map_of (files (sleep s w2)) path
        = Some (JObj (AList.update ''example'' (JArr exs') kvs)) \<and> keeps exs exs'"
  proof (cases "w2 = w1")
    case True
    then show ?thesis using inv fr(1) by (simp add: grading_inv_def sleep_def)
  next
    case False
    with w2 have "map_of (files (sleep s w2)) path
        = Some (JObj (AList.update ''example'' (JArr ?now) kvs))"
      by (simp add: sleep_def dump_def update_conv')
    with keeps_now show ?thesis by blast
  qed
  have "sent (sleep s w2) = sent (world_now st) @ replicate k example"
    using w2 fr(2) by (auto simp: sleep_def dump_def)
  then have "set (drop n (sent (sleep s w2)))
      \<subseteq> set (drop n (sent (world_now st))) \<union> {example}"
    using set_drop_subset [of "n - length (sent (world_now st))" "replicate k example"]
    by auto
  then have sent: "\<forall>q \<in> set (drop n (sent (sleep s w2))). \<not> has_teacher_score q"
    using inv lacks by (auto simp: grading_inv_def)
  from keeps_now doc sent show ?thesis unfolding grading_inv_def by blast
qed

lemma grade_loop_inv:
  assumes "grading_inv exs path kvs n (examples st) (world_now st)" and "exs = pre @ rest"
  shows "grading_inv exs path kvs n
           (examples (grade_loop E path (JObj kvs) (length pre) rest st))
           (world_now (grade_loop E path (JObj kvs) (length pre) rest st))"
  using assms
proof (induction rest arbitrary: pre st)
  case Nil
  then show ?case by simp
next
  case (Cons example rest)
  have exs': "exs = (pre @ [example]) @ rest" using Cons.prems(2) by simp
  have len: "Suc (length pre) = length (pre @ [example])" by simp
  show ?case
  proof (cases "py_contains ''teacher_score'' example")
    case (Inl e)
    then show ?thesis using Cons.prems(1) by simp
  next
    case (Inr g)
    show ?thesis
    proof (cases g)
      case True
      with Inr show ?thesis
        using Cons.IH [OF Cons.prems(1) exs'] by simp
    next
      case False
      with Inr have lacks: "\<not> has_teacher_score example" using no_score [of example] by simp
      show ?thesis
      proof (cases "grade_single_question E example (world_now st)")
        case (Inl e)
        with Inr False show ?thesis using Cons.prems(1) by simp
      next
        case Inr2: (Inr r)
        obtain example' w1 where r: "r = (example', w1)" by (cases r)
        let ?now = "(examples st)[length pre := example']"
        let ?w2 = "if (graded_count st + 1) mod 5 = 0
                   then dump path (put_examples (JObj kvs) ?now) w1 else w1"
        let ?st = "st\<lparr>examples := ?now, graded_count := graded_count st + 1,
                       world_now := sleep (1 / 2) ?w2\<rparr>"
        have "grading_inv exs path kvs n ?now (sleep (1 / 2) ?w2)"
          by (rule grading_inv_step [OF Cons.prems(1) Cons.prems(2) lacks]) (use Inr2 r in auto)
        then have "grading_inv exs path kvs n (examples ?st) (world_now ?st)" by simp
        from Cons.IH [OF this exs'] show ?thesis
          using Inr False Inr2 r by (simp add: Let_def)
      qed
    qed
  qed
qed

lemma grading_inv_start:
  assumes "map_of (files w) path = Some (JObj kvs)"
    and "map_of kvs ''example'' = Some (JArr exs)"
  shows "grading_inv exs path kvs (length (sent w)) exs w"
    and "grading_inv exs path kvs (length (sent w)) exs (backup_file E path sfx (JObj kvs) w)"
proof -
  have same: "AList.update ''example'' (JArr exs) kvs = kvs"
    using assms(2) by (rule update_triv)
  have k: "keeps exs exs" by (simp add: keeps_def)
  have d: "\<exists>exs'. map_of (files w) path = Some (JObj (AList.update ''example'' (JArr exs') kvs))
      \<and> keeps exs exs'"
    using assms(1) k same by (intro exI [of _ exs]) simp
  then show "grading_inv exs path kvs (length (sent w)) exs w"
    unfolding grading_inv_def using k by simp
  have "path \<in> set (map fst (files w))"
    using assms(1) by (metis map_of_eq_None_iff option.distinct(1) set_map)
  then have "map_of (files (backup_file E path sfx (JObj kvs) w)) path = Some (JObj kvs)"
    and "sent (backup_file E path sfx (JObj kvs) w) = sent w"
    using assms(1) by (auto simp: backup_file_def Let_def dump_def update_conv')
  then show "grading_inv exs path kvs (length (sent w)) exs (backup_file E path sfx (JObj kvs) w)"
    unfolding grading_inv_def using k d assms(1) by simp
qed

lemma process_json_file_inv:
  assumes "map_of (files w) path = Some (JObj kvs)"
    and "map_of kvs ''example'' = Some (JArr exs)"
  shows "\<exists>now. grading_inv exs path kvs (length (sent w)) now (snd (process_json_file E path w))"
proof -
  let ?w1 = "backup_file E path ''.json.backup'' (JObj kvs) w"
  let ?init = "\<lparr>raised = None, examples = exs, graded_count = 0, world_now = ?w1\<rparr>"
  let ?st = "grade_loop E path (JObj kvs) 0 exs ?init"
  have init: "grading_inv exs path kvs (length (sent w)) (examples ?init) (world_now ?init)"
    using grading_inv_start(2) [OF assms, of E "''.json.backup''"] by simp
  have inv: "grading_inv exs path kvs (length (sent w)) (examples ?st) (world_now ?st)"
    using grade_loop_inv [OF init, where pre = "[]" and rest = exs and E = E] by simp
  then have inv': "grading_inv exs path kvs (length (sent w)) (examples ?st)
      (dump path (put_examples (JObj kvs) (examples ?st)) (world_now ?st))"
    unfolding grading_inv_def by (auto simp: dump_def update_conv')
  have "snd (process_json_file E path w) = w
      \<or> snd (process_json_file E path w) = world_now ?st
      \<or> snd (process_json_file E path w)
          = dump path (put_examples (JObj kvs) (examples ?st)) (world_now ?st)"
    using assms
    by (simp add: process_json_file_def Let_def split: sum.splits option.splits)
  then show ?thesis
    using grading_inv_start(1) [OF assms] inv inv' by metis
qed

text \<open>
  Claim C10. A record that carries a teacher score is passed over by the grading loop,
  whether or not it carries a rationale: after a teacher-grading run over its file, the
  file holds the record unchanged at its position, and no request of the run was sent
  for it. So a record with a score and no rationale has none after the run either.
\<close>

theorem scored_record_skipped:
  assumes "map_of (files w) path = Some (JObj kvs)"
    and "map_of kvs ''example'' = Some (JArr exs)"
    and "i < length exs" and "has_teacher_score (exs ! i)"
  shows "\<exists>exs'. map_of (files (snd (process_json_file E path w))) path
                  = Some (JObj (AList.update ''example'' (JArr exs') kvs))
               \<and> length exs' = length exs \<and> exs' ! i = exs ! i
               \<and> exs ! i \<notin> set (drop (length (sent w)) (sent (snd (process_json_file E path w))))"
proof -
  from process_json_file_inv [OF assms(1,2), of E] obtain now where
    "grading_inv exs path kvs (length (sent w)) now (snd (process_json_file E path w))" ..
  then obtain exs' where
    doc: "map_of (files (snd (process_json_file E path w))) path
            = Some (JObj (AList.update ''example'' (JArr exs') kvs))"
    and k: "keeps exs exs'"
    and s: "\<forall>q \<in> set (drop (length (sent w)) (sent (snd (process_json_file E path w)))).
              \<not> has_teacher_score q"
    unfolding grading_inv_def by blast
  from k assms(3,4) have "length exs' = length exs" "exs' ! i = exs ! i"
    by (simp_all add: keeps_def)
  moreover from s assms(4) have
    "exs ! i \<notin> set (drop (length (sent w)) (sent (snd (process_json_file E path w))))"
    by blast
  ultimately show ?thesis using doc by blast
qed

theorem scored_record_skipped_witness:
  "has_teacher_score scored_only
   \<and> py_contains ''teacher_analysis'' scored_only = Inr False
   \<and> map_of (files (snd (process_json_file failing_env ''s/a.json''
                            (world_with [scored_only, ungraded])))) ''s/a.json''
       = Some (JObj [(''model'', JStr ''m''),
                     (''example'', JArr [scored_only,
                        failure_record [(''question'', JStr ''q2'')] ''2025-01-01 00:00:00''])])
   \<and> scored_only \<notin> set (sent (snd (process_json_file failing_env ''s/a.json''
                                        (world_with [scored_only, ungraded]))))"
proof -
  let ?w = "world_with [scored_only, ungraded]"
  have a: "map_of (files ?w) ''s/a.json''
      = Some (JObj [(''model'', JStr ''m''), (''example'', JArr [scored_only, ungraded])])"
    by (simp add: world_with_def)
  have b: "map_of [(''model'', JStr ''m''), (''example'', JArr [scored_only, ungraded])]
      ''example'' = Some (JArr [scored_only, ungraded])"
    by simp
  have c: "0 < length [scored_only, ungraded]" by simp
  have d: "has_teacher_score ([scored_only, ungraded] ! 0)" by (simp add: scored_only_def)
  have e: "py_contains ''teacher_analysis'' scored_only = Inr False" by code_simp
  have f: "map_of (files (snd (process_json_file failing_env ''s/a.json'' ?w))) ''s/a.json''
       = Some (JObj [(''model'', JStr ''m''),
                     (''example'', JArr [scored_only,
                        failure_record [(''question'', JStr ''q2'')] ''2025-01-01 00:00:00''])])"
    by code_simp
  have g: "length (sent ?w) = 0" by (simp add: world_with_def)
  show ?thesis
    using d e f g scored_record_skipped [OF a b c d, of failing_env] by simp
qed

subsection \<open>The scan for zero scores\<close>








subsection \<open>The parsing of the reply\<close>

lemma api_attempts_first_reply:
  assumes "0 < max_retries E"
    and "remote E (length (sent w)) q = Response 200 content"
    and "h E content = Return v"
  shows "api_attempts h E q [0..<max_retries E] w = (Some v, w\<lparr>sent := sent w @ [q]\<rparr>)"
proof -
  have "[0..<max_retries E] = 0 # [1..<max_retries E]"
    using assms(1) by (simp add: upt_conv_Cons)
  then show ?thesis using assms(2,3) by (simp add: Let_def)
qed

lemma plain_reply:
  "extract_payload ''teacher_score: 5'' = ''teacher_score: 5''"
  "fix_escapes ''teacher_score: 5'' = ''teacher_score: 5''"
  "extract_from_raw_text ''teacher_score: 5''
     = \<lparr>teacher_analysis = JStr ''teacher_score: 5'', teacher_score = 5\<rparr>"
  "extract_payload ''{}'' = ''{}''"
  "extract_from_raw_text ''{}'' = \<lparr>teacher_analysis = JStr ''{}'', teacher_score = 0\<rparr>"
  by code_simp+

text \<open>
  Claim C3, at a reply that is not JSON but names its score: the client of the first
  grading returns the text as rationale with the score 0, with neither the repair nor the
  pattern extraction; the client of the regrading takes the score 5 from the text. At a
  reply that parses to an object without the two fields, the first client falls through
  to the next attempt and the regrading client goes to the pattern extraction.
\<close>

theorem first_grading_lacks_fallback:
  assumes "json_loads E ''teacher_score: 5'' = None"
    and "0 < max_retries E"
    and "remote E (length (sent w)) q = Response 200 ''teacher_score: 5''"
  shows "fst (call_teacher_api E q w)
           = Some \<lparr>teacher_analysis = JStr ''teacher_score: 5'', teacher_score = 0\<rparr>
         \<and> fst (regrade_call_teacher_api E q w)
           = Some \<lparr>teacher_analysis = JStr ''teacher_score: 5'', teacher_score = 5\<rparr>
         \<and> (json_loads E ''{}'' = Some (JObj []) \<longrightarrow>
               teacher_handle E ''{}'' = Continue
               \<and> regrade_handle E ''{}''
                   = Return \<lparr>teacher_analysis = JStr ''{}'', teacher_score = 0\<rparr>)"
proof -
  have t: "teacher_handle E ''teacher_score: 5''
      = Return \<lparr>teacher_analysis = JStr ''teacher_score: 5'', teacher_score = 0\<rparr>"
    using assms(1) by (simp add: teacher_handle_def plain_reply)
  have r: "regrade_handle E ''teacher_score: 5''
      = Return \<lparr>teacher_analysis = JStr ''teacher_score: 5'', teacher_score = 5\<rparr>"
    using assms(1) by (simp add: regrade_handle_def plain_reply)
  have m: "json_loads E ''{}'' = Some (JObj []) \<longrightarrow>
               teacher_handle E ''{}'' = Continue
               \<and> regrade_handle E ''{}''
                   = Return \<lparr>teacher_analysis = JStr ''{}'', teacher_score = 0\<rparr>"
    by (simp add: teacher_handle_def regrade_handle_def plain_reply check_fields_def)
  show ?thesis
    using api_attempts_first_reply [where h = teacher_handle, OF assms(2,3) t]
      api_attempts_first_reply [where h = regrade_handle, OF assms(2,3) r] m
    by (simp add: call_teacher_api_def regrade_call_teacher_api_def)
qed

theorem first_grading_lacks_fallback_witness:
  "json_loads replying_env ''teacher_score: 5'' = None
   \<and> fst (call_teacher_api replying_env ungraded empty_world)
       = Some \<lparr>teacher_analysis = JStr ''teacher_score: 5'', teacher_score = 0\<rparr>
   \<and> fst (regrade_call_teacher_api replying_env ungraded empty_world)
       = Some \<lparr>teacher_analysis = JStr ''teacher_score: 5'', teacher_score = 5\<rparr>
   \<and> teacher_handle replying_env ''{}'' = Continue"
proof -
  have a: "json_loads replying_env ''teacher_score: 5'' = None"
    by (simp add: replying_env_def)
  have b: "0 < max_retries replying_env"
    by (simp add: replying_env_def default_max_retries_def)
  have c: "remote replying_env (length (sent empty_world)) ungraded
      = Response 200 ''teacher_score: 5''"
    by (simp add: replying_env_def)
  have d: "json_loads replying_env ''{}'' = Some (JObj [])" by (simp add: replying_env_def)
  show ?thesis
    using a d first_grading_lacks_fallback [OF a b c] by simp
qed


end
